theory Spec2Isabelle
  imports Main "HOL-Library.Product_Lexorder"
begin

section \<open>Clock times and calendar dates\<close>

text \<open>
  \<^verbatim>\<open>datetime.time\<close> carries hour, minute, second and microsecond; two naive times are
  compared as the tuples \<open>(hour, minute, second, microsecond)\<close>, lexicographically. Python
  builds only times with \<open>hour < 24\<close>, \<open>minute < 60\<close>, \<open>second < 60\<close> and
  \<open>microsecond < 1000000\<close>; the theorems below hold for every value of the type, so for these
  in particular.
\<close>

datatype time = Time (hour: nat) (minute: nat) (second: nat) (microsecond: nat)

definition time_tuple :: "time \<Rightarrow> nat \<times> nat \<times> nat \<times> nat" where
  "time_tuple t = (hour t, minute t, second t, microsecond t)"

instantiation time :: linorder
begin

definition less_eq_time :: "time \<Rightarrow> time \<Rightarrow> bool" where
  "less_eq_time a b \<longleftrightarrow> time_tuple a \<le> time_tuple b"

definition less_time :: "time \<Rightarrow> time \<Rightarrow> bool" where
  "less_time a b \<longleftrightarrow> time_tuple a < time_tuple b"

instance
proof
  fix x y z :: time
  show "(x < y) = (x \<le> y \<and> \<not> y \<le> x)"
    unfolding less_eq_time_def less_time_def by (rule less_le_not_le)
  show "x \<le> x"
    unfolding less_eq_time_def by simp
  show "x \<le> y \<Longrightarrow> y \<le> z \<Longrightarrow> x \<le> z"
    unfolding less_eq_time_def by (rule order_trans)
  show "x \<le> y \<Longrightarrow> y \<le> x \<Longrightarrow> x = y"
  proof -
    assume "x \<le> y" and "y \<le> x"
    then have "time_tuple x = time_tuple y"
      unfolding less_eq_time_def by (rule antisym)
    then show "x = y"
      by (cases x, cases y) (simp add: time_tuple_def)
  qed
  show "x \<le> y \<or> y \<le> x"
    unfolding less_eq_time_def by (rule linear)
qed

end

text \<open>
  \<^verbatim>\<open>datetime.date\<close>: year, month and day, compared as the tuple \<open>(year, month, day)\<close>.
\<close>

datatype date = Date (year: nat) (month: nat) (day: nat)

definition date_tuple :: "date \<Rightarrow> nat \<times> nat \<times> nat" where
  "date_tuple d = (year d, month d, day d)"

instantiation date :: linorder
begin

definition less_eq_date :: "date \<Rightarrow> date \<Rightarrow> bool" where
  "less_eq_date a b \<longleftrightarrow> date_tuple a \<le> date_tuple b"

definition less_date :: "date \<Rightarrow> date \<Rightarrow> bool" where
  "less_date a b \<longleftrightarrow> date_tuple a < date_tuple b"

instance
proof
  fix x y z :: date
  show "(x < y) = (x \<le> y \<and> \<not> y \<le> x)"
    unfolding less_eq_date_def less_date_def by (rule less_le_not_le)
  show "x \<le> x"
    unfolding less_eq_date_def by simp
  show "x \<le> y \<Longrightarrow> y \<le> z \<Longrightarrow> x \<le> z"
    unfolding less_eq_date_def by (rule order_trans)
  show "x \<le> y \<Longrightarrow> y \<le> x \<Longrightarrow> x = y"
  proof -
    assume "x \<le> y" and "y \<le> x"
    then have "date_tuple x = date_tuple y"
      unfolding less_eq_date_def by (rule antisym)
    then show "x = y"
      by (cases x, cases y) (simp add: date_tuple_def)
  qed
  show "x \<le> y \<or> y \<le> x"
    unfolding less_eq_date_def by (rule linear)
qed

end

text \<open>
  \<^verbatim>\<open>date.weekday()\<close> (0 is Monday, 6 is Sunday), as the standard library computes it from
  the proleptic Gregorian ordinal: \<^verbatim>\<open>(toordinal() + 6) % 7\<close>. The table of days before a
  month is read at the month of a date, which Python keeps between 1 and 12.
\<close>

definition is_leap :: "nat \<Rightarrow> bool" where
  "is_leap y = (y mod 4 = 0 \<and> (y mod 100 \<noteq> 0 \<or> y mod 400 = 0))"

definition days_before_year :: "nat \<Rightarrow> nat" where
  "days_before_year y =
     (let y1 = y - 1 in y1 * 365 + y1 div 4 + y1 div 400 - y1 div 100)"

definition days_before_month :: "nat \<Rightarrow> nat \<Rightarrow> nat" where
  "days_before_month y m =
     ([0, 0, 31, 59, 90, 120, 151, 181, 212, 243, 273, 304, 334] ! m) +
     (if m > 2 \<and> is_leap y then 1 else 0)"

definition toordinal :: "date \<Rightarrow> nat" where
  "toordinal d = days_before_year (year d) + days_before_month (year d) (month d) + day d"

definition weekday :: "date \<Rightarrow> int" where
  "weekday d = int ((toordinal d + 6) mod 7)"

text \<open>The errors the modelled code can raise.\<close>

datatype error =
  ValidationError string | ValueError | OverflowError | DoesNotExist | MultipleObjectsReturned

text \<open>
  The constructor call \<^verbatim>\<open>time(hour, minute)\<close>: seconds and microseconds default to zero. The
  constructor first converts each argument to a C \<^verbatim>\<open>int\<close> (\<^verbatim>\<open>OverflowError\<close> outside 32 bits)
  and then checks the ranges (\<^verbatim>\<open>ValueError\<close>).
\<close>

definition mk_time :: "int \<Rightarrow> int \<Rightarrow> error + time" where
  "mk_time h m =
     (if h < - 2147483648 \<or> 2147483647 < h \<or> m < - 2147483648 \<or> 2147483647 < m
      then Inl OverflowError
      else if 0 \<le> h \<and> h < 24 \<and> 0 \<le> m \<and> m < 60 then Inr (Time (nat h) (nat m) 0 0)
      else Inl ValueError)"

text \<open>
  The constructor call \<^verbatim>\<open>timedelta(minutes=n)\<close>: the duration normalised to days, seconds and
  microseconds, with \<^verbatim>\<open>OverflowError\<close> when the days exceed 999999999 in magnitude.
\<close>

definition timedelta_minutes :: "int \<Rightarrow> error + int \<times> int \<times> int" where
  "timedelta_minutes n =
     (let days = (n * 60) div 86400;
          seconds = (n * 60) mod 86400
      in if - 999999999 \<le> days \<and> days \<le> 999999999 then Inr (days, seconds, 0)
         else Inl OverflowError)"

text \<open>
  Truth value of an optional time field (\<^verbatim>\<open>if self.break_start and ...\<close>). The module uses
  f-strings, so it runs on Python 3.6 or later, where every \<^verbatim>\<open>time\<close> object is true
  (midnight included) and only \<^verbatim>\<open>None\<close> is false.
\<close>

definition truthy :: "time option \<Rightarrow> bool" where
  "truthy t = (t \<noteq> None)"

section \<open>Weekly business hours\<close>

type_synonym hub = nat

record business_hours =
  bh_hub_id :: hub
  bh_is_deleted :: bool
  day_of_week :: int
  open_time :: time
  close_time :: time
  is_closed :: bool
  break_start :: "time option"
  break_end :: "time option"

definition is_open_at :: "business_hours \<Rightarrow> time \<Rightarrow> bool" where
  "is_open_at self check_time =
     (if is_closed self then False
      else if \<not> (open_time self \<le> check_time \<and> check_time < close_time self) then False
      else if truthy (break_start self) \<and> truthy (break_end self) \<and>
              the (break_start self) \<le> check_time \<and> check_time < the (break_end self)
           then False
      else True)"

text \<open>
  \<^verbatim>\<open>BusinessHours.clean\<close>, returning the \<^verbatim>\<open>ValidationError\<close> it raises; the call
  \<^verbatim>\<open>super().clean()\<close> is the framework's empty hook. The two time columns are not nullable,
  so their truth tests are applied to present values.
\<close>

definition BusinessHours_clean :: "business_hours \<Rightarrow> error + unit" where
  "BusinessHours_clean self =
     (if \<not> is_closed self then
        if truthy (Some (open_time self)) \<and> truthy (Some (close_time self)) \<and>
           open_time self \<ge> close_time self
        then Inl (ValidationError ''Open time must be before close time.'')
        else if truthy (break_start self) \<and> truthy (break_end self) then
          if the (break_start self) \<ge> the (break_end self)
          then Inl (ValidationError ''Break start must be before break end.'')
          else if truthy (Some (open_time self)) \<and> the (break_start self) < open_time self
          then Inl (ValidationError ''Break start must be after open time.'')
          else if truthy (Some (close_time self)) \<and> the (break_end self) > close_time self
          then Inl (ValidationError ''Break end must be before close time.'')
          else Inr ()
        else Inr ()
      else Inr ())"

section \<open>Slot generation\<close>

record schedule_settings =
  timezone :: string
  week_starts_on :: int
  slot_duration :: int
  auto_close_enabled :: bool

text \<open>
  The \<^verbatim>\<open>while\<close> loop of \<^verbatim>\<open>get_slots\<close>, with the position \<open>current\<close> and the list
  \<open>slots\<close> built so far as loop state. The loop need not end, so it is a partial function:
  \<open>None\<close> is a run that never returns, \<open>Some (Inl e)\<close> a run that raises \<open>e\<close>. Every
  iteration that appends a slot also builds \<^verbatim>\<open>dt = timedelta(minutes=duration)\<close>; the value is
  not used, but its constructor can raise.
\<close>

partial_function (option) slots_loop ::
  "business_hours \<Rightarrow> int \<Rightarrow> time \<Rightarrow> time list \<Rightarrow> (error + time list) option" where
  "slots_loop self duration current slots =
     (if current < close_time self then
        if truthy (break_start self) \<and> truthy (break_end self) \<and>
           the (break_start self) \<le> current \<and> current < the (break_end self)
        then slots_loop self duration (the (break_end self)) slots
        else
          let slots' = slots @ [current]
          in case timedelta_minutes duration of
               Inl err \<Rightarrow> Some (Inl err)
             | Inr dt \<Rightarrow>
                 let total_minutes = int (hour current) * 60 + int (minute current) + duration;
                     new_hour = total_minutes div 60;
                     new_minute = total_minutes mod 60
                 in if new_hour \<ge> 24 then Some (Inr slots')
                    else (case mk_time new_hour new_minute of
                            Inl err \<Rightarrow> Some (Inl err)
                          | Inr t \<Rightarrow> slots_loop self duration t slots')
      else Some (Inr slots))"

text \<open>
  \<^verbatim>\<open>get_slots\<close>. \<open>settings_result\<close> is the outcome of
  \<^verbatim>\<open>ScheduleSettings.get_settings(self.hub_id)\<close>: the stored (or freshly created) settings
  row, or the exception that the \<^verbatim>\<open>try\<close> block turns into the default of 30 minutes.
\<close>

definition get_slots ::
  "business_hours \<Rightarrow> error + schedule_settings \<Rightarrow> (error + time list) option" where
  "get_slots self settings_result =
     (if is_closed self then Some (Inr [])
      else
        let duration = (case settings_result of Inr settings \<Rightarrow> slot_duration settings
                        | Inl _ \<Rightarrow> 30)
        in slots_loop self duration (open_time self) [])"

section \<open>Special days and overrides\<close>

record special_day =
  sd_hub_id :: hub
  sd_is_deleted :: bool
  sd_date :: date
  sd_name :: string
  sd_is_closed :: bool
  sd_open_time :: "time option"
  sd_close_time :: "time option"
  recurring_yearly :: bool
  sd_notes :: string

definition SpecialDay_clean :: "special_day \<Rightarrow> error + unit" where
  "SpecialDay_clean self =
     (if \<not> sd_is_closed self then
        if \<not> truthy (sd_open_time self) \<or> \<not> truthy (sd_close_time self)
        then Inl (ValidationError
               ''Open time and close time are required when the day is not fully closed.'')
        else if the (sd_open_time self) \<ge> the (sd_close_time self)
        then Inl (ValidationError ''Open time must be before close time.'')
        else Inr ()
      else Inr ())"

record schedule_override =
  so_hub_id :: hub
  so_is_deleted :: bool
  start_date :: date
  end_date :: date
  reason :: string
  so_open_time :: "time option"
  so_close_time :: "time option"
  so_is_closed :: bool

text \<open>
  \<^verbatim>\<open>ScheduleOverride.clean\<close>. Both date columns are not nullable and every \<^verbatim>\<open>date\<close> object is
  true, so the guard \<^verbatim>\<open>self.start_date and self.end_date\<close> holds.
\<close>

definition ScheduleOverride_clean :: "schedule_override \<Rightarrow> error + unit" where
  "ScheduleOverride_clean self =
     (if start_date self > end_date self
      then Inl (ValidationError ''Start date must be on or before end date.'')
      else Inr ())"

section \<open>The tables and their queries\<close>

text \<open>
  The three tables of the module, each a list of rows in storage order. A queryset is the
  list of rows that pass its filter, sorted by the model's \<^verbatim>\<open>Meta.ordering\<close>; rows with equal
  sort keys keep their storage order.
\<close>

record db =
  hours_table :: "business_hours list"
  special_table :: "special_day list"
  override_table :: "schedule_override list"

text \<open>\<^verbatim>\<open>QuerySet.first()\<close>: the first row, or \<^verbatim>\<open>None\<close>.\<close>

fun first :: "'a list \<Rightarrow> 'a option" where
  "first [] = None"
| "first (x # xs) = Some x"

text \<open>\<^verbatim>\<open>ordering = ['-start_date']\<close>: a stable insertion sort, latest start first.\<close>

fun insort_start_desc ::
  "schedule_override \<Rightarrow> schedule_override list \<Rightarrow> schedule_override list" where
  "insort_start_desc x [] = [x]"
| "insort_start_desc x (y # ys) =
     (if start_date y \<le> start_date x then x # y # ys else y # insort_start_desc x ys)"

definition order_by_start_desc :: "schedule_override list \<Rightarrow> schedule_override list" where
  "order_by_start_desc xs = foldr insort_start_desc xs []"

text \<open>
  \<^verbatim>\<open>ScheduleOverride.objects.filter(hub_id=hub, is_deleted=False, start_date__lte=today,
  end_date__gte=today)\<close>
\<close>

definition overrides_for :: "db \<Rightarrow> hub \<Rightarrow> date \<Rightarrow> schedule_override list" where
  "overrides_for d hub today =
     order_by_start_desc
       (filter (\<lambda>r. so_hub_id r = hub \<and> \<not> so_is_deleted r \<and>
                     start_date r \<le> today \<and> end_date r \<ge> today) (override_table d))"

text \<open>\<^verbatim>\<open>SpecialDay.objects.filter(hub_id=hub, is_deleted=False, date=today)\<close>\<close>

definition specials_on :: "db \<Rightarrow> hub \<Rightarrow> date \<Rightarrow> special_day list" where
  "specials_on d hub today =
     sort_key sd_date
       (filter (\<lambda>r. sd_hub_id r = hub \<and> \<not> sd_is_deleted r \<and> sd_date r = today)
          (special_table d))"

text \<open>
  \<^verbatim>\<open>SpecialDay.objects.filter(hub_id=hub, is_deleted=False, recurring_yearly=True,
  date__month=today.month, date__day=today.day)\<close>
\<close>

definition recurring_on :: "db \<Rightarrow> hub \<Rightarrow> date \<Rightarrow> special_day list" where
  "recurring_on d hub today =
     sort_key sd_date
       (filter (\<lambda>r. sd_hub_id r = hub \<and> \<not> sd_is_deleted r \<and> recurring_yearly r \<and>
                     month (sd_date r) = month today \<and> day (sd_date r) = day today)
          (special_table d))"

text \<open>\<^verbatim>\<open>SpecialDay.objects.filter(hub_id=hub, is_deleted=False, date__gte=today).order_by('date')\<close>\<close>

definition specials_from :: "db \<Rightarrow> hub \<Rightarrow> date \<Rightarrow> special_day list" where
  "specials_from d hub today =
     sort_key sd_date
       (filter (\<lambda>r. sd_hub_id r = hub \<and> \<not> sd_is_deleted r \<and> sd_date r \<ge> today)
          (special_table d))"

text \<open>
  \<^verbatim>\<open>BusinessHours.objects.get(hub_id=hub, is_deleted=False, day_of_week=weekday)\<close>: the one
  matching row; no row and several rows are the two exceptions of \<^verbatim>\<open>get\<close>.
\<close>

definition get_hours :: "db \<Rightarrow> hub \<Rightarrow> int \<Rightarrow> error + business_hours" where
  "get_hours d hub wd =
     (case filter (\<lambda>r. bh_hub_id r = hub \<and> \<not> bh_is_deleted r \<and> day_of_week r = wd)
             (hours_table d) of
        [] \<Rightarrow> Inl DoesNotExist
      | [h] \<Rightarrow> Inr h
      | _ \<Rightarrow> Inl MultipleObjectsReturned)"

text \<open>
  \<^verbatim>\<open>BusinessHours.objects.filter(hub_id=hub, is_deleted=False).order_by('day_of_week')\<close> and
  the dictionary \<^verbatim>\<open>{h.day_of_week: h for h in hours}\<close>, in which a later row replaces an
  earlier one with the same key.
\<close>

definition hours_by_day :: "db \<Rightarrow> hub \<Rightarrow> int \<Rightarrow> business_hours option" where
  "hours_by_day d hub =
     map_of (rev (map (\<lambda>h. (day_of_week h, h))
       (sort_key day_of_week
          (filter (\<lambda>r. bh_hub_id r = hub \<and> \<not> bh_is_deleted r) (hours_table d)))))"

section \<open>The open-now resolver\<close>

text \<open>
  The JSON body of \<^verbatim>\<open>is_open_now\<close>: \<^verbatim>\<open>today\<close> and \<^verbatim>\<open>current_time\<close> echo the queried
  instant (the latter as \<^verbatim>\<open>%H:%M\<close>, hour and minute).
\<close>

record status =
  st_is_open :: bool
  st_reason :: string
  st_today :: date
  st_current_time :: "nat \<times> nat"

text \<open>\<^verbatim>\<open># Fall back to regular business hours\<close>\<close>

definition regular_hours :: "db \<Rightarrow> hub \<Rightarrow> int \<Rightarrow> time \<Rightarrow> status \<Rightarrow> error + status" where
  "regular_hours d hub today_weekday now_time status =
     (case get_hours d hub today_weekday of
        Inr hours \<Rightarrow>
          (let status = status\<lparr>st_is_open := is_open_at hours now_time\<rparr>
           in if is_closed hours then Inr (status\<lparr>st_reason := ''Closed today''\<rparr>)
              else if st_is_open status then Inr (status\<lparr>st_reason := ''Regular hours''\<rparr>)
              else Inr (status\<lparr>st_reason := ''Outside business hours''\<rparr>))
      | Inl DoesNotExist \<Rightarrow> Inr (status\<lparr>st_reason := ''No hours configured''\<rparr>)
      | Inl e \<Rightarrow> Inl e)"

text \<open>\<^verbatim>\<open># Check recurring special days\<close>\<close>

definition recurring_special ::
  "db \<Rightarrow> hub \<Rightarrow> date \<Rightarrow> int \<Rightarrow> time \<Rightarrow> status \<Rightarrow> error + status" where
  "recurring_special d hub today today_weekday now_time status =
     (case first (recurring_on d hub today) of
        Some recurring \<Rightarrow>
          if sd_is_closed recurring then Inr (status\<lparr>st_reason := sd_name recurring\<rparr>)
          else if truthy (sd_open_time recurring) \<and> truthy (sd_close_time recurring) then
            Inr (status\<lparr>st_is_open := the (sd_open_time recurring) \<le> now_time \<and>
                                      now_time < the (sd_close_time recurring),
                         st_reason := sd_name recurring\<rparr>)
          else regular_hours d hub today_weekday now_time status
      | None \<Rightarrow> regular_hours d hub today_weekday now_time status)"

text \<open>\<^verbatim>\<open># Check special day (second priority)\<close>\<close>

definition exact_special ::
  "db \<Rightarrow> hub \<Rightarrow> date \<Rightarrow> int \<Rightarrow> time \<Rightarrow> status \<Rightarrow> error + status" where
  "exact_special d hub today today_weekday now_time status =
     (case first (specials_on d hub today) of
        Some special \<Rightarrow>
          if sd_is_closed special then Inr (status\<lparr>st_reason := sd_name special\<rparr>)
          else if truthy (sd_open_time special) \<and> truthy (sd_close_time special) then
            Inr (status\<lparr>st_is_open := the (sd_open_time special) \<le> now_time \<and>
                                      now_time < the (sd_close_time special),
                         st_reason := sd_name special\<rparr>)
          else recurring_special d hub today today_weekday now_time status
      | None \<Rightarrow> recurring_special d hub today today_weekday now_time status)"

text \<open>
  \<^verbatim>\<open>is_open_now\<close>, with the tenant of the session and the local date and time of the request
  as arguments. Each of the blocks above either returns or falls through to the next one.
\<close>

definition is_open_now :: "db \<Rightarrow> hub \<Rightarrow> date \<Rightarrow> time \<Rightarrow> error + status" where
  "is_open_now d hub today now_time =
     (let today_weekday = weekday today;
          status = \<lparr>st_is_open = False, st_reason = [], st_today = today,
                    st_current_time = (hour now_time, minute now_time)\<rparr>
      in case first (overrides_for d hub today) of
           Some override \<Rightarrow>
             if so_is_closed override then Inr (status\<lparr>st_reason := reason override\<rparr>)
             else if truthy (so_open_time override) \<and> truthy (so_close_time override) then
               Inr (status\<lparr>st_is_open := the (so_open_time override) \<le> now_time \<and>
                                         now_time < the (so_close_time override),
                            st_reason := reason override\<rparr>)
             else exact_special d hub today today_weekday now_time status
         | None \<Rightarrow> exact_special d hub today today_weekday now_time status)"

section \<open>The dashboard\<close>

record dashboard_context =
  ctx_week :: "(int \<times> business_hours option) list"
  ctx_today_hours :: "business_hours option"
  ctx_is_open :: bool
  ctx_special_today :: "special_day option"
  ctx_override_today :: "schedule_override option"
  ctx_next_special :: "special_day option"

definition dashboard :: "db \<Rightarrow> hub \<Rightarrow> date \<Rightarrow> time \<Rightarrow> dashboard_context" where
  "dashboard d hub today now_time =
     (let by_day = hours_by_day d hub;
          week = map (\<lambda>day_num. (day_num, by_day day_num)) [0, 1, 2, 3, 4, 5, 6];
          today_weekday = weekday today;
          today_hours = by_day today_weekday;
          is_open = (case today_hours of
                       Some h \<Rightarrow> if \<not> is_closed h then is_open_at h now_time else False
                     | None \<Rightarrow> False);
          special_today = first (specials_on d hub today);
          is_open = (case special_today of
                       Some s \<Rightarrow>
                         if sd_is_closed s then False
                         else if truthy (sd_open_time s) \<and> truthy (sd_close_time s)
                         then the (sd_open_time s) \<le> now_time \<and> now_time < the (sd_close_time s)
                         else is_open
                     | None \<Rightarrow> is_open);
          override_today = first (overrides_for d hub today);
          is_open = (case override_today of
                       Some ov \<Rightarrow>
                         if so_is_closed ov then False
                         else if truthy (so_open_time ov) \<and> truthy (so_close_time ov)
                         then the (so_open_time ov) \<le> now_time \<and> now_time < the (so_close_time ov)
                         else is_open
                     | None \<Rightarrow> is_open);
          next_special = first (specials_from d hub today)
      in \<lparr>ctx_week = week, ctx_today_hours = today_hours, ctx_is_open = is_open,
          ctx_special_today = special_today, ctx_override_today = override_today,
          ctx_next_special = next_special\<rparr>)"

section \<open>The behaviour the specification describes\<close>

text \<open>
  The definitions of this section follow the words of the specification, for comparison with
  the code above.
\<close>

text \<open>
  One exception tier: a closed entry answers closed, an entry with both times answers by its
  interval, any other entry has no answer.
\<close>

definition tier_answer ::
  "bool \<Rightarrow> time option \<Rightarrow> time option \<Rightarrow> string \<Rightarrow> time \<Rightarrow> (bool \<times> string) option" where
  "tier_answer closed_flag opening closing label t =
     (if closed_flag then Some (False, label)
      else (case (opening, closing) of
              (Some a, Some b) \<Rightarrow> Some (a \<le> t \<and> t < b, label)
            | _ \<Rightarrow> None))"

definition override_answer :: "schedule_override option \<Rightarrow> time \<Rightarrow> (bool \<times> string) option" where
  "override_answer entry t =
     (case entry of None \<Rightarrow> None
      | Some ov \<Rightarrow> tier_answer (so_is_closed ov) (so_open_time ov) (so_close_time ov) (reason ov) t)"

definition special_answer :: "special_day option \<Rightarrow> time \<Rightarrow> (bool \<times> string) option" where
  "special_answer entry t =
     (case entry of None \<Rightarrow> None
      | Some s \<Rightarrow> tier_answer (sd_is_closed s) (sd_open_time s) (sd_close_time s) (sd_name s) t)"

definition weekly_answer :: "business_hours option \<Rightarrow> time \<Rightarrow> bool \<times> string" where
  "weekly_answer entry t =
     (case entry of None \<Rightarrow> (False, ''No hours configured'')
      | Some h \<Rightarrow>
          if is_closed h then (False, ''Closed today'')
          else if is_open_at h t then (True, ''Regular hours'')
          else (False, ''Outside business hours''))"

text \<open>The weekly entry of a tenant for a weekday, if there is one.\<close>

definition entry_for :: "db \<Rightarrow> hub \<Rightarrow> int \<Rightarrow> business_hours option" where
  "entry_for d hub wd =
     find (\<lambda>r. bh_hub_id r = hub \<and> \<not> bh_is_deleted r \<and> day_of_week r = wd) (hours_table d)"

text \<open>The four tiers in order: the first tier with an answer decides.\<close>

definition resolve :: "db \<Rightarrow> hub \<Rightarrow> date \<Rightarrow> time \<Rightarrow> bool \<times> string" where
  "resolve d hub date t =
     (case override_answer (first (overrides_for d hub date)) t of
        Some r \<Rightarrow> r
      | None \<Rightarrow>
          (case special_answer (first (specials_on d hub date)) t of
             Some r \<Rightarrow> r
           | None \<Rightarrow>
               (case special_answer (first (recurring_on d hub date)) t of
                  Some r \<Rightarrow> r
                | None \<Rightarrow> weekly_answer (entry_for d hub (weekday date)) t)))"

text \<open>
  The uniqueness constraint of the weekly table (\<^verbatim>\<open>unique_together\<close> on tenant and weekday).
\<close>

definition weekly_unique :: "db \<Rightarrow> bool" where
  "weekly_unique d = distinct (map (\<lambda>r. (bh_hub_id r, day_of_week r)) (hours_table d))"

text \<open>A break is set and the position lies in it.\<close>

definition in_break :: "business_hours \<Rightarrow> time \<Rightarrow> bool" where
  "in_break e pos =
     (case (break_start e, break_end e) of
        (Some bs, Some be) \<Rightarrow> bs \<le> pos \<and> pos < be
      | _ \<Rightarrow> False)"

text \<open>Minutes since midnight, and the clock time a number of minutes since midnight names.\<close>

definition minute_of_day :: "time \<Rightarrow> int" where
  "minute_of_day t = int (hour t) * 60 + int (minute t)"

definition clock :: "int \<Rightarrow> time" where
  "clock n = Time (nat (n div 60)) (nat (n mod 60)) 0 0"

text \<open>
  The slot sequence from a position: \<open>slot_sequence e stride pos xs\<close> says that the steps of
  the specification, started at \<open>pos\<close>, emit exactly \<open>xs\<close>.
\<close>

inductive slot_sequence :: "business_hours \<Rightarrow> int \<Rightarrow> time \<Rightarrow> time list \<Rightarrow> bool" where
  finished: "\<not> pos < close_time e \<Longrightarrow> slot_sequence e stride pos []"
| skip_break: "pos < close_time e \<Longrightarrow> in_break e pos \<Longrightarrow>
     slot_sequence e stride (the (break_end e)) xs \<Longrightarrow> slot_sequence e stride pos xs"
| last_slot: "pos < close_time e \<Longrightarrow> \<not> in_break e pos \<Longrightarrow>
     24 * 60 \<le> minute_of_day pos + stride \<Longrightarrow> slot_sequence e stride pos [pos]"
| emit: "pos < close_time e \<Longrightarrow> \<not> in_break e pos \<Longrightarrow>
     0 \<le> minute_of_day pos + stride \<Longrightarrow> minute_of_day pos + stride < 24 * 60 \<Longrightarrow>
     slot_sequence e stride (clock (minute_of_day pos + stride)) xs \<Longrightarrow>
     slot_sequence e stride pos (pos # xs)"

code_pred slot_sequence .

text \<open>The configured stride; a missing configuration gives 30 minutes.\<close>

definition stride_of :: "error + schedule_settings \<Rightarrow> int" where
  "stride_of settings_result =
     (case settings_result of Inr settings \<Rightarrow> slot_duration settings | Inl _ \<Rightarrow> 30)"

text \<open>The strides for which \<^verbatim>\<open>timedelta(minutes=stride)\<close> exists.\<close>

definition timedelta_range :: "int \<Rightarrow> bool" where
  "timedelta_range stride = (- 1439999998560 \<le> stride \<and> stride \<le> 1439999999999)"

text \<open>
  A bound on the iterations still to come when the stride is positive: a pending jump over
  the break, then the minutes left in the day.
\<close>

definition remaining :: "business_hours \<Rightarrow> time \<Rightarrow> nat" where
  "remaining e pos =
     (if truthy (break_end e) \<and> pos < the (break_end e) then 1441 else 0) +
     nat (1440 - minute_of_day pos)"

text \<open>A recurring special day matches a date by month and day.\<close>

definition recurring_match :: "special_day \<Rightarrow> date \<Rightarrow> bool" where
  "recurring_match s date =
     (recurring_yearly s \<and> month (sd_date s) = month date \<and> day (sd_date s) = day date)"

text \<open>
  Which rows a lookup may choose: the rows of the tenant that are not deleted and match the
  date or weekday. \<open>chosen_from r xs P\<close> says that the lookup result \<open>r\<close> is a row of \<open>xs\<close>
  with \<open>P\<close>, or is empty when no row of \<open>xs\<close> has \<open>P\<close>.
\<close>

definition override_applies :: "hub \<Rightarrow> date \<Rightarrow> schedule_override \<Rightarrow> bool" where
  "override_applies hub date ov =
     (so_hub_id ov = hub \<and> \<not> so_is_deleted ov \<and> start_date ov \<le> date \<and> date \<le> end_date ov)"

definition special_applies :: "hub \<Rightarrow> date \<Rightarrow> special_day \<Rightarrow> bool" where
  "special_applies hub date s = (sd_hub_id s = hub \<and> \<not> sd_is_deleted s \<and> sd_date s = date)"

definition recurring_applies :: "hub \<Rightarrow> date \<Rightarrow> special_day \<Rightarrow> bool" where
  "recurring_applies hub date s =
     (sd_hub_id s = hub \<and> \<not> sd_is_deleted s \<and> recurring_match s date)"

definition weekly_applies :: "hub \<Rightarrow> int \<Rightarrow> business_hours \<Rightarrow> bool" where
  "weekly_applies hub wd h = (bh_hub_id h = hub \<and> \<not> bh_is_deleted h \<and> day_of_week h = wd)"

definition chosen_from :: "'a option \<Rightarrow> 'a list \<Rightarrow> ('a \<Rightarrow> bool) \<Rightarrow> bool" where
  "chosen_from r xs P =
     (case r of None \<Rightarrow> \<forall>x\<in>set xs. \<not> P x | Some y \<Rightarrow> y \<in> set xs \<and> P y)"

section \<open>Sample rows\<close>

text \<open>
  Rows for tenant 1: the fixtures of the module's test suite (Monday hours with a break, a
  week of hours, Christmas, Christmas Eve, summer hours) and a few variations of them.
\<close>

definition monday_hours :: business_hours where
  "monday_hours = \<lparr>bh_hub_id = 1, bh_is_deleted = False, day_of_week = 0,
     open_time = Time 9 0 0 0, close_time = Time 18 0 0 0, is_closed = False,
     break_start = Some (Time 13 0 0 0), break_end = Some (Time 14 0 0 0)\<rparr>"

definition inverted_hours :: business_hours where
  "inverted_hours = \<lparr>bh_hub_id = 1, bh_is_deleted = False, day_of_week = 6,
     open_time = Time 18 0 0 0, close_time = Time 9 0 0 0, is_closed = True,
     break_start = None, break_end = None\<rparr>"

definition christmas :: special_day where
  "christmas = \<lparr>sd_hub_id = 1, sd_is_deleted = False, sd_date = Date 2026 12 25,
     sd_name = ''Christmas'', sd_is_closed = True, sd_open_time = None, sd_close_time = None,
     recurring_yearly = True, sd_notes = ''Merry Christmas!''\<rparr>"

definition summer_hours :: schedule_override where
  "summer_hours = \<lparr>so_hub_id = 1, so_is_deleted = False, start_date = Date 2026 7 1,
     end_date = Date 2026 8 31, reason = ''Summer hours'', so_open_time = Some (Time 8 0 0 0),
     so_close_time = Some (Time 15 0 0 0), so_is_closed = False\<rparr>"

definition weekday_hours :: "int \<Rightarrow> business_hours" where
  "weekday_hours wd = \<lparr>bh_hub_id = 1, bh_is_deleted = False, day_of_week = wd,
     open_time = Time 9 0 0 0, close_time = Time 18 0 0 0, is_closed = False,
     break_start = None, break_end = None\<rparr>"

definition business_hours_week :: "business_hours list" where
  "business_hours_week =
     map weekday_hours [0, 1, 2, 3, 4] @
     [(weekday_hours 5)\<lparr>open_time := Time 10 0 0 0, close_time := Time 14 0 0 0\<rparr>,
      (weekday_hours 6)\<lparr>is_closed := True\<rparr>]"

definition christmas_eve :: special_day where
  "christmas_eve = \<lparr>sd_hub_id = 1, sd_is_deleted = False, sd_date = Date 2026 12 24,
     sd_name = ''Christmas Eve'', sd_is_closed = False, sd_open_time = Some (Time 9 0 0 0),
     sd_close_time = Some (Time 14 0 0 0), recurring_yearly = True, sd_notes = []\<rparr>"

definition inventory :: schedule_override where
  "inventory = \<lparr>so_hub_id = 1, so_is_deleted = False, start_date = Date 2026 12 20,
     end_date = Date 2026 12 26, reason = ''Inventory'', so_open_time = None,
     so_close_time = None, so_is_closed = True\<rparr>"

definition inventory_db :: db where
  "inventory_db = \<lparr>hours_table = business_hours_week, special_table = [christmas_eve],
     override_table = [summer_hours, inventory]\<rparr>"

definition christmas_db :: db where
  "christmas_db = \<lparr>hours_table = business_hours_week, special_table = [christmas],
     override_table = []\<rparr>"

definition midnight_sale :: schedule_override where
  "midnight_sale = summer_hours\<lparr>reason := ''Midnight sale'',
     so_open_time := Some (Time 0 0 0 0)\<rparr>"

definition midnight_db :: db where
  "midnight_db = \<lparr>hours_table = business_hours_week, special_table = [],
     override_table = [midnight_sale]\<rparr>"


definition default_settings :: schedule_settings where
  "default_settings = \<lparr>timezone = ''Europe/Madrid'', week_starts_on = 1, slot_duration = 30,
     auto_close_enabled = False\<rparr>"

section \<open>Comparing concrete times and dates\<close>

lemma time_less_iff [simp]:
  "Time h m s u < Time h' m' s' u' \<longleftrightarrow> (h, m, s, u) < (h', m', s', u')"
  by (simp add: less_time_def time_tuple_def)

lemma time_le_iff [simp]:
  "Time h m s u \<le> Time h' m' s' u' \<longleftrightarrow> (h, m, s, u) \<le> (h', m', s', u')"
  by (simp add: less_eq_time_def time_tuple_def)

lemma date_less_iff [simp]:
  "Date y m d < Date y' m' d' \<longleftrightarrow> (y, m, d) < (y', m', d')"
  by (simp add: less_date_def date_tuple_def)

lemma date_le_iff [simp]:
  "Date y m d \<le> Date y' m' d' \<longleftrightarrow> (y, m, d) \<le> (y', m', d')"
  by (simp add: less_eq_date_def date_tuple_def)

lemma in_break_iff:
  "in_break e t \<longleftrightarrow>
     truthy (break_start e) \<and> truthy (break_end e) \<and>
     the (break_start e) \<le> t \<and> t < the (break_end e)"
  by (auto simp: in_break_def truthy_def split: option.splits)

section \<open>Containment in the weekly interval\<close>

text \<open>
  Claim C4. For a weekly entry that is not closed and has \<open>open_time < close_time\<close>,
  \<open>is_open_at\<close> holds at \<open>t\<close> exactly when \<open>open_time \<le> t < close_time\<close> and \<open>t\<close> is not in
  a set break \<open>break_start \<le> t < break_end\<close>. For the hours 09:00 to 18:00 with the break
  13:00 to 14:00 the entry is not open at 13:00 and at 13:59 and is open at 14:00.
\<close>

theorem is_open_at_boundaries:
  "(\<not> is_closed e \<and> open_time e < close_time e \<longrightarrow>
      (is_open_at e t \<longleftrightarrow> open_time e \<le> t \<and> t < close_time e \<and> \<not> in_break e t)) \<and>
   \<not> is_open_at monday_hours (Time 13 0 0 0) \<and>
   \<not> is_open_at monday_hours (Time 13 59 0 0) \<and>
   is_open_at monday_hours (Time 14 0 0 0)"
  by (auto simp: is_open_at_def in_break_iff monday_hours_def truthy_def)

theorem is_open_at_boundaries_witness:
  "\<not> is_closed monday_hours \<and> open_time monday_hours < close_time monday_hours \<and>
   is_open_at monday_hours (Time 17 59 59 999999) \<and>
   \<not> is_open_at monday_hours (Time 18 0 0 0) \<and>
   is_open_at monday_hours (Time 9 0 0 0)"
  using is_open_at_boundaries [of monday_hours "Time 17 59 59 999999"]
    is_open_at_boundaries [of monday_hours "Time 18 0 0 0"]
    is_open_at_boundaries [of monday_hours "Time 9 0 0 0"]
  by (simp add: monday_hours_def in_break_def)

section \<open>Validation\<close>

text \<open>
  Claim C7. A weekly entry and a special day that are marked closed pass validation
  whatever their time fields hold: no time field is looked at.
\<close>

theorem closed_rows_skip_validation:
  "(is_closed e \<longrightarrow> BusinessHours_clean e = Inr ()) \<and>
   (sd_is_closed s \<longrightarrow> SpecialDay_clean s = Inr ())"
  by (simp add: BusinessHours_clean_def SpecialDay_clean_def)

theorem closed_rows_skip_validation_witness:
  "is_closed inverted_hours \<and> close_time inverted_hours < open_time inverted_hours \<and>
   BusinessHours_clean inverted_hours = Inr () \<and>
   sd_is_closed christmas \<and> sd_open_time christmas = None \<and> sd_close_time christmas = None \<and>
   SpecialDay_clean christmas = Inr ()"
  using closed_rows_skip_validation [of inverted_hours christmas]
  by (simp add: inverted_hours_def christmas_def)

text \<open>
  Claim C5, as stated, fails for the override: an override that is not closed and opens at
  18:00 and closes at 09:00 passes its validation.
\<close>

theorem override_times_unchecked:
  "\<not> so_is_closed (summer_hours\<lparr>so_open_time := Some (Time 18 0 0 0),
                                 so_close_time := Some (Time 9 0 0 0)\<rparr>) \<and>
   ScheduleOverride_clean (summer_hours\<lparr>so_open_time := Some (Time 18 0 0 0),
                                 so_close_time := Some (Time 9 0 0 0)\<rparr>) = Inr ()"
  by (simp add: summer_hours_def ScheduleOverride_clean_def)

text \<open>
  Claim C5, amended. A weekly entry that is not closed and has \<open>open_time \<ge> close_time\<close>
  fails validation, and so does a special day that is not closed and has both times set with
  \<open>open_time \<ge> close_time\<close>; equal times fail too. The validation of an override looks only
  at its dates: it succeeds exactly when \<open>start_date \<le> end_date\<close>.
\<close>

theorem inverted_interval_rejected:
  "(\<not> is_closed e \<and> close_time e \<le> open_time e \<longrightarrow>
      BusinessHours_clean e = Inl (ValidationError ''Open time must be before close time.'')) \<and>
   (\<not> sd_is_closed s \<and> sd_open_time s = Some a \<and> sd_close_time s = Some b \<and> b \<le> a \<longrightarrow>
      SpecialDay_clean s = Inl (ValidationError ''Open time must be before close time.'')) \<and>
   (ScheduleOverride_clean ov = Inr () \<longleftrightarrow> start_date ov \<le> end_date ov)"
  by (auto simp: BusinessHours_clean_def SpecialDay_clean_def ScheduleOverride_clean_def truthy_def)

theorem inverted_interval_rejected_witness:
  "\<not> is_closed (monday_hours\<lparr>close_time := Time 9 0 0 0\<rparr>) \<and>
   close_time (monday_hours\<lparr>close_time := Time 9 0 0 0\<rparr>)
     \<le> open_time (monday_hours\<lparr>close_time := Time 9 0 0 0\<rparr>) \<and>
   BusinessHours_clean (monday_hours\<lparr>close_time := Time 9 0 0 0\<rparr>) =
     Inl (ValidationError ''Open time must be before close time.'') \<and>
   SpecialDay_clean (christmas\<lparr>sd_is_closed := False, sd_open_time := Some (Time 14 0 0 0),
       sd_close_time := Some (Time 9 0 0 0)\<rparr>) =
     Inl (ValidationError ''Open time must be before close time.'')"
  using inverted_interval_rejected [of "monday_hours\<lparr>close_time := Time 9 0 0 0\<rparr>"
      "christmas\<lparr>sd_is_closed := False, sd_open_time := Some (Time 14 0 0 0),
         sd_close_time := Some (Time 9 0 0 0)\<rparr>" "Time 14 0 0 0" "Time 9 0 0 0" summer_hours]
  by (simp add: monday_hours_def christmas_def)

section \<open>The resolver and its four tiers\<close>

lemma find_as_filter:
  "find P xs = (case filter P xs of [] \<Rightarrow> None | x # _ \<Rightarrow> Some x)"
  by (induction xs) auto

lemma filter_unique_key:
  "distinct (map f xs) \<Longrightarrow> (\<And>x. x \<in> set xs \<Longrightarrow> P x \<Longrightarrow> f x = k) \<Longrightarrow>
   length (filter P xs) \<le> 1"
proof (induction xs)
  case Nil
  then show ?case by simp
next
  case (Cons x xs)
  show ?case
  proof (cases "P x")
    case False
    with Cons show ?thesis by simp
  next
    case True
    then have fx: "f x = k" using Cons.prems(2) by simp
    have "filter P xs = []"
    proof (rule ccontr)
      assume "filter P xs \<noteq> []"
      then obtain y where y: "y \<in> set xs" "P y"
        by (metis filter_empty_conv)
      then have "f y = k" using Cons.prems(2) by simp
      with fx y have "f x \<in> f ` set xs" by (metis imageI)
      with Cons.prems(1) show False by simp
    qed
    with True show ?thesis by simp
  qed
qed

lemma get_hours_unique:
  assumes "weekly_unique d"
  shows "get_hours d hub wd =
           (case entry_for d hub wd of None \<Rightarrow> Inl DoesNotExist | Some h \<Rightarrow> Inr h)"
proof -
  let ?P = "\<lambda>r. bh_hub_id r = hub \<and> \<not> bh_is_deleted r \<and> day_of_week r = wd"
  have "length (filter ?P (hours_table d)) \<le> 1"
    using assms unfolding weekly_unique_def
    by (rule filter_unique_key [where k = "(hub, wd)"]) simp
  then show ?thesis
    unfolding get_hours_def entry_for_def find_as_filter
    by (cases "filter ?P (hours_table d)" rule: list.exhaust; simp split: list.splits)
qed

lemma regular_hours_weekly:
  assumes "weekly_unique d" and "\<not> st_is_open st"
  shows "regular_hours d hub wd t st =
           Inr (st\<lparr>st_is_open := fst (weekly_answer (entry_for d hub wd) t),
                    st_reason := snd (weekly_answer (entry_for d hub wd) t)\<rparr>)"
  using assms(2)
  unfolding regular_hours_def get_hours_unique [OF assms(1)] weekly_answer_def
  by (simp add: is_open_at_def Let_def split: option.splits)

lemma recurring_special_tier:
  assumes "\<not> st_is_open st"
  shows "recurring_special d hub today wd t st =
           (case special_answer (first (recurring_on d hub today)) t of
              Some r \<Rightarrow> Inr (st\<lparr>st_is_open := fst r, st_reason := snd r\<rparr>)
            | None \<Rightarrow> regular_hours d hub wd t st)"
  using assms
  unfolding recurring_special_def special_answer_def tier_answer_def
  by (auto simp: truthy_def split: option.splits)

lemma exact_special_tier:
  assumes "\<not> st_is_open st"
  shows "exact_special d hub today wd t st =
           (case special_answer (first (specials_on d hub today)) t of
              Some r \<Rightarrow> Inr (st\<lparr>st_is_open := fst r, st_reason := snd r\<rparr>)
            | None \<Rightarrow> recurring_special d hub today wd t st)"
  using assms
  unfolding exact_special_def special_answer_def tier_answer_def
  by (auto simp: truthy_def split: option.splits)

lemma override_tier:
  "is_open_now d hub today t =
     (let st = \<lparr>st_is_open = False, st_reason = [], st_today = today,
                st_current_time = (hour t, minute t)\<rparr>
      in case override_answer (first (overrides_for d hub today)) t of
           Some r \<Rightarrow> Inr (st\<lparr>st_is_open := fst r, st_reason := snd r\<rparr>)
         | None \<Rightarrow> exact_special d hub today (weekday today) t st)"
  unfolding is_open_now_def override_answer_def tier_answer_def
  by (auto simp: truthy_def Let_def split: option.splits)

lemma is_open_now_resolve:
  assumes "weekly_unique d"
  shows "is_open_now d hub today t =
     Inr \<lparr>st_is_open = fst (resolve d hub today t), st_reason = snd (resolve d hub today t),
          st_today = today, st_current_time = (hour t, minute t)\<rparr>"
  unfolding override_tier resolve_def Let_def
  by (simp add: exact_special_tier recurring_special_tier regular_hours_weekly [OF assms]
      split: option.splits)

lemma first_chosen:
  "set ys = {x \<in> set xs. P x} \<Longrightarrow> chosen_from (first ys) xs P"
  unfolding chosen_from_def by (cases ys) auto

lemma set_insort_start_desc: "set (insort_start_desc x ys) = insert x (set ys)"
  by (induction ys) auto

lemma set_order_by_start_desc: "set (order_by_start_desc xs) = set xs"
  unfolding order_by_start_desc_def by (induction xs) (auto simp: set_insort_start_desc)

lemma override_chosen:
  "chosen_from (first (overrides_for d hub date)) (override_table d) (override_applies hub date)"
  by (rule first_chosen) (auto simp: overrides_for_def set_order_by_start_desc override_applies_def)

lemma special_chosen:
  "chosen_from (first (specials_on d hub date)) (special_table d) (special_applies hub date)"
  by (rule first_chosen) (auto simp: specials_on_def special_applies_def)

lemma recurring_chosen:
  "chosen_from (first (recurring_on d hub date)) (special_table d) (recurring_applies hub date)"
  by (rule first_chosen) (auto simp: recurring_on_def recurring_applies_def recurring_match_def)

lemma weekly_chosen:
  "chosen_from (entry_for d hub wd) (hours_table d) (weekly_applies hub wd)"
  unfolding chosen_from_def entry_for_def weekly_applies_def
  by (auto split: option.splits simp: find_None_iff dest: find_Some_iff [THEN iffD1])

lemma closed_override_wins:
  "first (overrides_for d hub date) = Some ov \<Longrightarrow> so_is_closed ov \<Longrightarrow>
   is_open_now d hub date t =
     Inr \<lparr>st_is_open = False, st_reason = reason ov, st_today = date,
          st_current_time = (hour t, minute t)\<rparr>"
  by (simp add: is_open_now_def)

text \<open>
  Claim C1. The resolver answers by four tiers in order: the override chosen for the date
  (a non-deleted override of the tenant with \<open>start_date \<le> date \<le> end_date\<close>), the special day
  of that exact date, the recurring special day of that month and day, and the weekly entry
  of the weekday. In the first three tiers a closed entry answers (false, its reason or
  name), an entry with both times answers by \<open>open_time \<le> t < close_time\<close>, and any other
  entry falls through; the weekly tier answers "No hours configured", "Closed today",
  "Regular hours" or "Outside business hours". A closed override decides whatever the
  special days say.
\<close>

theorem resolver_four_tiers:
  "(weekly_unique d \<longrightarrow>
      is_open_now d hub date t =
        Inr \<lparr>st_is_open = fst (resolve d hub date t), st_reason = snd (resolve d hub date t),
             st_today = date, st_current_time = (hour t, minute t)\<rparr>) \<and>
   chosen_from (first (overrides_for d hub date)) (override_table d) (override_applies hub date) \<and>
   chosen_from (first (specials_on d hub date)) (special_table d) (special_applies hub date) \<and>
   chosen_from (first (recurring_on d hub date)) (special_table d) (recurring_applies hub date) \<and>
   chosen_from (entry_for d hub (weekday date)) (hours_table d)
     (weekly_applies hub (weekday date)) \<and>
   (first (overrides_for d hub date) = Some ov \<and> so_is_closed ov \<longrightarrow>
      is_open_now d hub date t =
        Inr \<lparr>st_is_open = False, st_reason = reason ov, st_today = date,
             st_current_time = (hour t, minute t)\<rparr>)"
  using is_open_now_resolve [of d hub date t] override_chosen [of d hub date]
    special_chosen [of d hub date] recurring_chosen [of d hub date]
    weekly_chosen [of d hub "weekday date"] closed_override_wins [of d hub date ov t]
  by blast

lemma first_overrides_inventory:
  "first (overrides_for inventory_db 1 (Date 2026 12 24)) = Some inventory"
  by (simp add: overrides_for_def inventory_db_def summer_hours_def inventory_def
     order_by_start_desc_def)

lemma first_specials_inventory:
  "first (specials_on inventory_db 1 (Date 2026 12 24)) = Some christmas_eve"
  by (simp add: specials_on_def inventory_db_def christmas_eve_def)

lemma weekly_unique_inventory: "weekly_unique inventory_db"
  by (simp add: weekly_unique_def inventory_db_def business_hours_week_def weekday_hours_def)

theorem resolver_four_tiers_witness:
  "weekly_unique inventory_db \<and>
   first (overrides_for inventory_db 1 (Date 2026 12 24)) = Some inventory \<and>
   so_is_closed inventory \<and>
   first (specials_on inventory_db 1 (Date 2026 12 24)) = Some christmas_eve \<and>
   \<not> sd_is_closed christmas_eve \<and>
   resolve inventory_db 1 (Date 2026 12 24) (Time 10 0 0 0) = (False, ''Inventory'') \<and>
   is_open_now inventory_db 1 (Date 2026 12 24) (Time 10 0 0 0) =
     Inr \<lparr>st_is_open = False, st_reason = ''Inventory'', st_today = Date 2026 12 24,
          st_current_time = (10, 0)\<rparr>"
  using resolver_four_tiers [of inventory_db 1 "Date 2026 12 24" "Time 10 0 0 0" inventory]
    weekly_unique_inventory first_overrides_inventory first_specials_inventory
  by (simp add: inventory_def christmas_eve_def resolve_def override_answer_def tier_answer_def)

section \<open>Evaluation of the sample rows\<close>

lemmas sample_defs = christmas_db_def midnight_db_def midnight_sale_def summer_hours_def
  christmas_def business_hours_week_def weekday_hours_def inventory_db_def inventory_def
  christmas_eve_def monday_hours_def

lemmas weekday_defs = weekday_def toordinal_def days_before_year_def days_before_month_def
  is_leap_def

lemmas query_defs = overrides_for_def order_by_start_desc_def specials_on_def recurring_on_def
  specials_from_def get_hours_def hours_by_day_def

lemmas resolver_defs = is_open_now_def exact_special_def recurring_special_def
  regular_hours_def is_open_at_def truthy_def

section \<open>Midnight in the presence guards\<close>

text \<open>
  Claim C9, as stated, fails: an override that is not closed, opens at 00:00 and closes at
  15:00 decides the answer at 07:00 (open, with its reason); had it been passed over, the
  next tiers would have answered "Outside business hours".
\<close>

theorem midnight_override_decides:
  "first (overrides_for midnight_db 1 (Date 2026 7 15)) = Some midnight_sale \<and>
   \<not> so_is_closed midnight_sale \<and>
   so_open_time midnight_sale = Some (Time 0 0 0 0) \<and>
   so_close_time midnight_sale = Some (Time 15 0 0 0) \<and>
   is_open_now midnight_db 1 (Date 2026 7 15) (Time 7 0 0 0) =
     Inr \<lparr>st_is_open = True, st_reason = ''Midnight sale'', st_today = Date 2026 7 15,
          st_current_time = (7, 0)\<rparr> \<and>
   exact_special midnight_db 1 (Date 2026 7 15) (weekday (Date 2026 7 15)) (Time 7 0 0 0)
       \<lparr>st_is_open = False, st_reason = [], st_today = Date 2026 7 15,
        st_current_time = (7, 0)\<rparr> =
     Inr \<lparr>st_is_open = False, st_reason = ''Outside business hours'',
          st_today = Date 2026 7 15, st_current_time = (7, 0)\<rparr>"
  by (simp add: sample_defs weekday_defs query_defs resolver_defs)

text \<open>
  Claim C9, amended. In tiers 1 to 3 a time field equal to 00:00 counts as set: an override
  or special day that is not closed, has \<open>open_time\<close> 00:00 and has \<open>close_time\<close> set decides
  its tier with \<open>(00:00 \<le> t < close_time, reason or name)\<close>. Only an absent time makes the
  entry fall through.
\<close>

theorem midnight_is_a_set_time:
  "(first (overrides_for d hub date) = Some ov \<and> \<not> so_is_closed ov \<and>
    so_open_time ov = Some (Time 0 0 0 0) \<and> so_close_time ov = Some c \<longrightarrow>
      is_open_now d hub date t =
        Inr \<lparr>st_is_open = (Time 0 0 0 0 \<le> t \<and> t < c), st_reason = reason ov,
             st_today = date, st_current_time = (hour t, minute t)\<rparr>) \<and>
   (first (specials_on d hub date) = Some s \<and> \<not> sd_is_closed s \<and>
    sd_open_time s = Some (Time 0 0 0 0) \<and> sd_close_time s = Some c \<longrightarrow>
      exact_special d hub date wd t st =
        Inr (st\<lparr>st_is_open := (Time 0 0 0 0 \<le> t \<and> t < c), st_reason := sd_name s\<rparr>)) \<and>
   (first (recurring_on d hub date) = Some s \<and> \<not> sd_is_closed s \<and>
    sd_open_time s = Some (Time 0 0 0 0) \<and> sd_close_time s = Some c \<longrightarrow>
      recurring_special d hub date wd t st =
        Inr (st\<lparr>st_is_open := (Time 0 0 0 0 \<le> t \<and> t < c), st_reason := sd_name s\<rparr>))"
  by (simp add: is_open_now_def exact_special_def recurring_special_def truthy_def)

theorem midnight_is_a_set_time_witness:
  "first (overrides_for midnight_db 1 (Date 2026 7 15)) = Some midnight_sale \<and>
   \<not> so_is_closed midnight_sale \<and>
   so_open_time midnight_sale = Some (Time 0 0 0 0) \<and>
   so_close_time midnight_sale = Some (Time 15 0 0 0) \<and>
   is_open_now midnight_db 1 (Date 2026 7 15) (Time 16 30 0 0) =
     Inr \<lparr>st_is_open = False, st_reason = ''Midnight sale'', st_today = Date 2026 7 15,
          st_current_time = (16, 30)\<rparr>"
  using midnight_is_a_set_time [of midnight_db 1 "Date 2026 7 15" midnight_sale
      "Time 15 0 0 0" "Time 16 30 0 0"]
  by (simp add: sample_defs query_defs)

section \<open>Recurring special days\<close>

text \<open>
  Claim C8. The candidates of tier 3 for a queried date are exactly the tenant's non-deleted
  special days with \<open>recurring_yearly\<close> whose month and day equal those of the date; the year
  plays no part. A recurring special day dated 2026-12-25 decides the answer on 2027-12-25
  and on 2025-12-25 and does not match 2026-12-24.
\<close>

theorem recurring_matches_any_year:
  "(s \<in> set (recurring_on d hub date) \<longleftrightarrow>
      s \<in> set (special_table d) \<and> recurring_applies hub date s) \<and>
   chosen_from (first (recurring_on d hub date)) (special_table d) (recurring_applies hub date) \<and>
   (month date = month date' \<and> day date = day date' \<longrightarrow>
      recurring_on d hub date = recurring_on d hub date') \<and>
   recurring_match christmas (Date 2027 12 25) \<and>
   recurring_match christmas (Date 2025 12 25) \<and>
   \<not> recurring_match christmas (Date 2026 12 24) \<and>
   is_open_now christmas_db 1 (Date 2027 12 25) (Time 11 0 0 0) =
     Inr \<lparr>st_is_open = False, st_reason = ''Christmas'', st_today = Date 2027 12 25,
          st_current_time = (11, 0)\<rparr> \<and>
   is_open_now christmas_db 1 (Date 2025 12 25) (Time 11 0 0 0) =
     Inr \<lparr>st_is_open = False, st_reason = ''Christmas'', st_today = Date 2025 12 25,
          st_current_time = (11, 0)\<rparr> \<and>
   is_open_now christmas_db 1 (Date 2026 12 24) (Time 11 0 0 0) =
     Inr \<lparr>st_is_open = True, st_reason = ''Regular hours'', st_today = Date 2026 12 24,
          st_current_time = (11, 0)\<rparr>"
proof -
  have "s \<in> set (recurring_on d hub date) \<longleftrightarrow>
      s \<in> set (special_table d) \<and> recurring_applies hub date s"
    by (auto simp: recurring_on_def recurring_applies_def recurring_match_def)
  moreover have "month date = month date' \<and> day date = day date' \<longrightarrow>
      recurring_on d hub date = recurring_on d hub date'"
    by (simp add: recurring_on_def)
  moreover have "recurring_match christmas (Date 2027 12 25) \<and>
      recurring_match christmas (Date 2025 12 25) \<and>
      \<not> recurring_match christmas (Date 2026 12 24)"
    by (simp add: recurring_match_def christmas_def)
  moreover have "is_open_now christmas_db 1 (Date 2027 12 25) (Time 11 0 0 0) =
     Inr \<lparr>st_is_open = False, st_reason = ''Christmas'', st_today = Date 2027 12 25,
          st_current_time = (11, 0)\<rparr>"
    by (simp add: sample_defs weekday_defs query_defs resolver_defs)
  moreover have "is_open_now christmas_db 1 (Date 2025 12 25) (Time 11 0 0 0) =
     Inr \<lparr>st_is_open = False, st_reason = ''Christmas'', st_today = Date 2025 12 25,
          st_current_time = (11, 0)\<rparr>"
    by (simp add: sample_defs weekday_defs query_defs resolver_defs)
  moreover have "is_open_now christmas_db 1 (Date 2026 12 24) (Time 11 0 0 0) =
     Inr \<lparr>st_is_open = True, st_reason = ''Regular hours'', st_today = Date 2026 12 24,
          st_current_time = (11, 0)\<rparr>"
    by (simp add: sample_defs weekday_defs query_defs resolver_defs)
  ultimately show ?thesis
    using recurring_chosen [of d hub date] by blast
qed

theorem recurring_matches_any_year_witness:
  "month (Date 2027 12 25) = month (Date 2025 12 25) \<and>
   day (Date 2027 12 25) = day (Date 2025 12 25) \<and>
   recurring_on christmas_db 1 (Date 2027 12 25) = recurring_on christmas_db 1 (Date 2025 12 25) \<and>
   christmas \<in> set (recurring_on christmas_db 1 (Date 2027 12 25)) \<and>
   christmas \<notin> set (recurring_on christmas_db 1 (Date 2026 12 24))"
proof -
  note later = recurring_matches_any_year
    [of christmas christmas_db 1 "Date 2027 12 25" "Date 2025 12 25"]
  note eve = recurring_matches_any_year
    [of christmas christmas_db 1 "Date 2026 12 24" "Date 2026 12 24"]
  have same: "month (Date 2027 12 25) = month (Date 2025 12 25) \<and>
      day (Date 2027 12 25) = day (Date 2025 12 25)"
    by simp
  have row: "christmas \<in> set (special_table christmas_db)"
    by (simp add: christmas_db_def)
  have yes: "recurring_applies 1 (Date 2027 12 25) christmas"
    by (simp add: recurring_applies_def recurring_match_def christmas_def)
  have no: "\<not> recurring_applies 1 (Date 2026 12 24) christmas"
    by (simp add: recurring_applies_def recurring_match_def christmas_def)
  from later same have "recurring_on christmas_db 1 (Date 2027 12 25) =
      recurring_on christmas_db 1 (Date 2025 12 25)"
    by blast
  moreover from later row yes have "christmas \<in> set (recurring_on christmas_db 1 (Date 2027 12 25))"
    by blast
  moreover from eve no have "christmas \<notin> set (recurring_on christmas_db 1 (Date 2026 12 24))"
    by blast
  ultimately show ?thesis using same by blast
qed

section \<open>The dashboard against the resolver\<close>

text \<open>
  Under the uniqueness constraint the dictionary of the dashboard holds the weekly entry the
  resolver looks up, and the dashboard's layering computes tiers 1, 2 and 4 of the resolver.
  The two therefore agree whenever an override or an exact special day decides, or the
  recurring tier has nothing to say.
\<close>

lemma hours_by_day_unique:
  assumes "weekly_unique d"
  shows "hours_by_day d hub wd = entry_for d hub wd"
proof -
  let ?P = "\<lambda>r. bh_hub_id r = hub \<and> \<not> bh_is_deleted r"
  let ?xs = "filter ?P (hours_table d)"
  let ?zs = "rev (map (\<lambda>h. (day_of_week h, h)) (sort_key day_of_week ?xs))"
  have "distinct (map (\<lambda>r. (bh_hub_id r, day_of_week r)) ?xs)"
    using assms unfolding weekly_unique_def by (rule distinct_map_filter)
  then have dist: "distinct ?xs" and inj: "inj_on (\<lambda>r. (bh_hub_id r, day_of_week r)) (set ?xs)"
    by (simp_all add: distinct_map)
  have inj_day: "inj_on day_of_week (set ?xs)"
  proof (rule inj_onI)
    fix a b
    assume "a \<in> set ?xs" "b \<in> set ?xs" "day_of_week a = day_of_week b"
    then show "a = b" using inj by (auto dest: inj_onD)
  qed
  have "distinct (map fst ?zs)"
    using dist inj_day by (simp add: rev_map [symmetric] comp_def distinct_map)
  then have by_day: "hours_by_day d hub wd = Some h \<longleftrightarrow> h \<in> set ?xs \<and> day_of_week h = wd" for h
    unfolding hours_by_day_def by (auto simp: map_of_eq_Some_iff)
  have entry: "entry_for d hub wd = Some h \<longleftrightarrow> h \<in> set ?xs \<and> day_of_week h = wd" for h
  proof
    assume "entry_for d hub wd = Some h"
    then show "h \<in> set ?xs \<and> day_of_week h = wd"
      unfolding entry_for_def by (auto simp: find_Some_iff)
  next
    assume h: "h \<in> set ?xs \<and> day_of_week h = wd"
    then have "entry_for d hub wd \<noteq> None"
      unfolding entry_for_def by (auto simp: find_None_iff)
    then obtain h' where h': "entry_for d hub wd = Some h'" by blast
    then have "h' \<in> set ?xs \<and> day_of_week h' = wd"
      unfolding entry_for_def by (auto simp: find_Some_iff)
    with h inj_day have "h' = h" by (auto dest: inj_onD)
    with h' show "entry_for d hub wd = Some h" by simp
  qed
  show ?thesis
  proof (cases "entry_for d hub wd")
    case None
    then have "\<And>h. hours_by_day d hub wd \<noteq> Some h"
      using by_day entry by (metis option.distinct(1))
    with None show ?thesis by (cases "hours_by_day d hub wd") auto
  next
    case (Some h)
    then show ?thesis using by_day entry by metis
  qed
qed


lemma dashboard_is_open:
  "ctx_is_open (dashboard d hub date t) =
     (case override_answer (first (overrides_for d hub date)) t of
        Some r \<Rightarrow> fst r
      | None \<Rightarrow>
          (case special_answer (first (specials_on d hub date)) t of
             Some r \<Rightarrow> fst r
           | None \<Rightarrow> fst (weekly_answer (hours_by_day d hub (weekday date)) t)))"
proof -
  have weekly: "(case h of Some h \<Rightarrow> if \<not> is_closed h then is_open_at h t else False
                 | None \<Rightarrow> False) = fst (weekly_answer h t)" for h
    by (cases h) (simp_all add: weekly_answer_def)
  show ?thesis
    unfolding dashboard_def Let_def
    by (cases "first (overrides_for d hub date)"; cases "first (specials_on d hub date)")
      (simp_all add: weekly override_answer_def special_answer_def tier_answer_def truthy_def
        split: option.splits)
qed

lemma dashboard_agrees_without_recurring:
  assumes "weekly_unique d"
    and "override_answer (first (overrides_for d hub date)) t \<noteq> None \<or>
         special_answer (first (specials_on d hub date)) t \<noteq> None \<or>
         special_answer (first (recurring_on d hub date)) t = None"
  shows "ctx_is_open (dashboard d hub date t) = fst (resolve d hub date t)"
  using assms(2)
  unfolding dashboard_is_open resolve_def hours_by_day_unique [OF assms(1)]
  by (cases "override_answer (first (overrides_for d hub date)) t";
      cases "special_answer (first (specials_on d hub date)) t") simp_all

text \<open>
  Claim C3 asks that the dashboard and the resolver give the same \<open>is_open\<close>. On 2027-12-25
  at 11:00, with Saturday hours 10:00 to 14:00 and a recurring closed special day dated
  2026-12-25, the dashboard says open and the resolver says closed.
\<close>

theorem dashboard_misses_recurring_day:
  "ctx_is_open (dashboard christmas_db 1 (Date 2027 12 25) (Time 11 0 0 0)) \<and>
   is_open_now christmas_db 1 (Date 2027 12 25) (Time 11 0 0 0) =
     Inr \<lparr>st_is_open = False, st_reason = ''Christmas'', st_today = Date 2027 12 25,
          st_current_time = (11, 0)\<rparr>"
  by (simp add: sample_defs weekday_defs query_defs resolver_defs dashboard_def Let_def)

section \<open>The slot loop\<close>

lemma timedelta_minutes_range:
  "timedelta_minutes d = (if timedelta_range d then Inr ((d * 60) div 86400, (d * 60) mod 86400, 0)
                          else Inl OverflowError)"
proof -
  define q where "q = (d * 60) div 86400"
  define r where "r = (d * 60) mod 86400"
  have split: "d * 60 = 86400 * q + r"
    unfolding q_def r_def by (rule mult_div_mod_eq [symmetric])
  have r: "0 \<le> r" "r < 86400"
    unfolding r_def by (rule pos_mod_sign, simp, rule pos_mod_bound, simp)
  have "(- 999999999 \<le> q \<and> q \<le> 999999999) \<longleftrightarrow> timedelta_range d"
    unfolding timedelta_range_def using split r by linarith
  then have "(let days = q; seconds = r
              in if - 999999999 \<le> days \<and> days \<le> 999999999 then Inr (days, seconds, 0)
                 else Inl OverflowError) =
             (if timedelta_range d then Inr (q, r, 0) else Inl OverflowError)"
    by (simp add: Let_def)
  then show ?thesis
    unfolding timedelta_minutes_def q_def r_def .
qed

lemma mk_time_clock:
  assumes "0 \<le> n" and "n < 24 * 60"
  shows "mk_time (n div 60) (n mod 60) = Inr (clock n)"
proof -
  define q where "q = n div 60"
  define r where "r = n mod 60"
  have split: "n = 60 * q + r"
    unfolding q_def r_def by (rule mult_div_mod_eq [symmetric])
  have r: "0 \<le> r" "r < 60"
    unfolding r_def by (rule pos_mod_sign, simp, rule pos_mod_bound, simp)
  have "0 \<le> q \<and> q < 24" using split r assms by linarith
  with r have "mk_time q r = Inr (Time (nat q) (nat r) 0 0)"
    by (simp add: mk_time_def)
  then show ?thesis
    unfolding q_def r_def clock_def .
qed

lemma mk_time_negative:
  assumes "n < 0"
  shows "mk_time (n div 60) (n mod 60) =
     Inl (if n div 60 < - 2147483648 then OverflowError else ValueError)"
proof -
  define q where "q = n div 60"
  define r where "r = n mod 60"
  have split: "n = 60 * q + r"
    unfolding q_def r_def by (rule mult_div_mod_eq [symmetric])
  have r: "0 \<le> r" "r < 60"
    unfolding r_def by (rule pos_mod_sign, simp, rule pos_mod_bound, simp)
  have "q < 0" using split r assms by linarith
  with r have "mk_time q r = Inl (if q < - 2147483648 then OverflowError else ValueError)"
    by (simp add: mk_time_def)
  then show ?thesis
    unfolding q_def r_def .
qed

lemma hour_past_midnight: "24 \<le> n div 60 \<longleftrightarrow> 24 * 60 \<le> (n::int)"
  by presburger

lemma loop_body_step:
  "(if pos < close_time e then
      if truthy (break_start e) \<and> truthy (break_end e) \<and>
         the (break_start e) \<le> pos \<and> pos < the (break_end e)
      then f e d (the (break_end e)) acc
      else
        let slots' = acc @ [pos]
        in case timedelta_minutes d of
             Inl err \<Rightarrow> Some (Inl err)
           | Inr dt \<Rightarrow>
               let total_minutes = int (hour pos) * 60 + int (minute pos) + d;
                   new_hour = total_minutes div 60;
                   new_minute = total_minutes mod 60
               in if new_hour \<ge> 24 then Some (Inr slots')
                  else (case mk_time new_hour new_minute of
                          Inl err \<Rightarrow> Some (Inl err)
                        | Inr t \<Rightarrow> f e d t slots')
    else Some (Inr acc)) =
   (if \<not> pos < close_time e then Some (Inr acc)
    else if in_break e pos then f e d (the (break_end e)) acc
    else if \<not> timedelta_range d then Some (Inl OverflowError)
    else if 24 * 60 \<le> minute_of_day pos + d then Some (Inr (acc @ [pos]))
    else if minute_of_day pos + d < 0
    then Some (Inl (if (minute_of_day pos + d) div 60 < - 2147483648 then OverflowError
                    else ValueError))
    else f e d (clock (minute_of_day pos + d)) (acc @ [pos]))"
  by (simp add: in_break_iff Let_def hour_past_midnight mk_time_clock mk_time_negative
      minute_of_day_def timedelta_minutes_range)

lemma slots_loop_step:
  "slots_loop e d pos acc =
     (if \<not> pos < close_time e then Some (Inr acc)
      else if in_break e pos then slots_loop e d (the (break_end e)) acc
      else if \<not> timedelta_range d then Some (Inl OverflowError)
      else if 24 * 60 \<le> minute_of_day pos + d then Some (Inr (acc @ [pos]))
      else if minute_of_day pos + d < 0
      then Some (Inl (if (minute_of_day pos + d) div 60 < - 2147483648 then OverflowError
                      else ValueError))
      else slots_loop e d (clock (minute_of_day pos + d)) (acc @ [pos]))"
  by (subst slots_loop.simps) (rule loop_body_step)

lemma slots_loop_sound:
  assumes "slots_loop e d pos acc = Some r"
  shows "\<forall>ys. r = Inr ys \<longrightarrow> (\<exists>xs. slot_sequence e d pos xs \<and> ys = acc @ xs)"
proof (rule slots_loop.raw_induct [OF _ assms], goal_cases)
  case (1 f e d pos acc r)
  note body = 1(2) [unfolded loop_body_step]
  let ?n = "minute_of_day pos + d"
  consider (stop) "\<not> pos < close_time e"
    | (jump) "pos < close_time e" "in_break e pos"
    | (overflow) "pos < close_time e" "\<not> in_break e pos" "\<not> timedelta_range d"
    | (late) "pos < close_time e" "\<not> in_break e pos" "timedelta_range d" "24 * 60 \<le> ?n"
    | (neg) "pos < close_time e" "\<not> in_break e pos" "timedelta_range d" "?n < 0"
    | (ok) "pos < close_time e" "\<not> in_break e pos" "timedelta_range d"
        "0 \<le> ?n" "?n < 24 * 60"
    by linarith
  then show ?case
  proof cases
    case stop
    with body show ?thesis by (auto intro: slot_sequence.finished)
  next
    case jump
    with body have "f e d (the (break_end e)) acc = Some r" by simp
    from 1(1) [OF this] jump show ?thesis
      by (auto intro: slot_sequence.skip_break)
  next
    case overflow
    with body show ?thesis by auto
  next
    case late
    with body have "r = Inr (acc @ [pos])" by simp
    with late show ?thesis
      by (auto intro: slot_sequence.last_slot [simplified])
  next
    case neg
    with body show ?thesis by auto
  next
    case ok
    with body have "f e d (clock ?n) (acc @ [pos]) = Some r" by simp
    from 1(1) [OF this] ok show ?thesis
      by (auto intro: slot_sequence.emit [simplified])
  qed
qed



lemma minute_of_day_nonneg: "0 \<le> minute_of_day pos"
  by (simp add: minute_of_day_def)

lemma minute_of_day_clock: "0 \<le> n \<Longrightarrow> minute_of_day (clock n) = n"
  by (simp add: minute_of_day_def clock_def pos_imp_zdiv_nonneg_iff)

lemma clock_after:
  assumes "1 \<le> d"
  shows "pos < clock (minute_of_day pos + d)"
proof (cases pos)
  case (Time h m s u)
  define n where "n = int h * 60 + int m + d"
  define q where "q = n div 60"
  define r where "r = n mod 60"
  have split: "n = 60 * q + r" and r: "0 \<le> r" "r < 60"
    by (simp_all add: q_def r_def)
  have "int h \<le> q" and "int h = q \<longrightarrow> int m < r"
    using split r assms unfolding n_def by linarith+
  then have "h < nat q \<or> (h \<le> nat q \<and> m < nat r)"
    by linarith
  then show ?thesis
    using Time by (auto simp: clock_def minute_of_day_def q_def r_def n_def)
qed

lemma slots_loop_ends:
  assumes "1 \<le> d"
  shows "\<exists>r. slots_loop e d pos acc = Some r \<and>
           (timedelta_range d \<longrightarrow> (\<exists>xs. r = Inr xs)) \<and>
           (\<forall>err. r = Inl err \<longrightarrow> err = OverflowError)"
proof (induction "remaining e pos" arbitrary: pos acc rule: less_induct)
  case less
  show ?case
  proof (cases "pos < close_time e")
    case False
    then show ?thesis by (subst slots_loop_step) simp
  next
    case running: True
    show ?thesis
    proof (cases "in_break e pos")
      case True
      then have "remaining e (the (break_end e)) < remaining e pos"
        using minute_of_day_nonneg [of "the (break_end e)"]
        by (simp add: remaining_def in_break_iff)
      from less [OF this] running True show ?thesis
        by (subst slots_loop_step) simp
    next
      case False
      let ?n = "minute_of_day pos + d"
      have pos_n: "0 \<le> minute_of_day pos" by (rule minute_of_day_nonneg)
      show ?thesis
      proof (cases "\<not> timedelta_range d \<or> 24 * 60 \<le> ?n")
        case True
        with running False show ?thesis by (subst slots_loop_step) auto
      next
        case early: False
        have later: "pos < clock ?n" using assms by (rule clock_after)
        have "minute_of_day (clock ?n) = ?n"
          using pos_n assms by (simp add: minute_of_day_clock)
        with early assms pos_n later have "remaining e (clock ?n) < remaining e pos"
          by (auto simp: remaining_def)
        from less [OF this] running False early pos_n assms show ?thesis
          by (subst slots_loop_step) simp
      qed
    qed
  qed
qed

lemma stride_in_range: "1 \<le> d \<Longrightarrow> d \<le> 1439999999999 \<Longrightarrow> timedelta_range d"
  by (simp add: timedelta_range_def)

lemma slot_sequence_open:
  "slot_sequence e d pos xs \<Longrightarrow> 1 \<le> d \<Longrightarrow> open_time e \<le> pos \<Longrightarrow>
   \<forall>t\<in>set xs. open_time e \<le> t \<and> t < close_time e \<and> \<not> in_break e t"
proof (induction rule: slot_sequence.induct)
  case (finished pos e stride)
  then show ?case by simp
next
  case (skip_break pos e stride xs)
  then have "open_time e \<le> pos" and "pos < the (break_end e)"
    by (simp_all add: in_break_iff)
  then have "open_time e \<le> the (break_end e)"
    by simp
  with skip_break show ?case by simp
next
  case (last_slot pos e stride)
  then show ?case by simp
next
  case (emit pos e stride xs)
  from emit.prems(1) have "pos < clock (minute_of_day pos + stride)"
    by (rule clock_after)
  with emit show ?case by simp
qed

lemma stride_zero_never_returns:
  "slots_loop (weekday_hours 0) 0 (Time 9 0 0 0) acc = None"
proof (rule ccontr)
  assume "slots_loop (weekday_hours 0) 0 (Time 9 0 0 0) acc \<noteq> None"
  then obtain r where r: "slots_loop (weekday_hours 0) 0 (Time 9 0 0 0) acc = Some r"
    by blast
  have "\<not> (weekday_hours 0 = weekday_hours 0 \<and> (0::int) = 0 \<and> Time 9 0 0 0 = Time 9 0 0 0)"
  proof (rule slots_loop.raw_induct
      [where P = "\<lambda>e d pos acc r. \<not> (e = weekday_hours 0 \<and> d = 0 \<and> pos = Time 9 0 0 0)",
       OF _ r], goal_cases)
    case (1 f e d pos acc r)
    show ?case
    proof
      assume here: "e = weekday_hours 0 \<and> d = 0 \<and> pos = Time 9 0 0 0"
      with 1(2) have "f (weekday_hours 0) 0 (Time 9 0 0 0) (acc @ [Time 9 0 0 0]) = Some r"
        by (simp add: weekday_hours_def truthy_def mk_time_def timedelta_minutes_def Let_def)
      from 1(1) [OF this] show False by simp
    qed
  qed
  then show False by simp
qed

lemma get_slots_loop:
  "\<not> is_closed e \<Longrightarrow> get_slots e sr = slots_loop e (stride_of sr) (open_time e) []"
  by (simp add: get_slots_def stride_of_def)




text \<open>
  Claim C6 asks that \<open>get_slots\<close> returns for every stride the settings can hold. With the
  stride 0 and the hours 09:00 to 18:00 the loop never returns; with the stride -600 it
  raises \<^verbatim>\<open>ValueError\<close>.
\<close>

theorem stride_zero_never_ends:
  "get_slots (weekday_hours 0) (Inr (default_settings\<lparr>slot_duration := 0\<rparr>)) = None \<and>
   get_slots (weekday_hours 0) (Inr (default_settings\<lparr>slot_duration := - 600\<rparr>)) =
     Some (Inl ValueError)"
proof -
  have "get_slots (weekday_hours 0) (Inr (default_settings\<lparr>slot_duration := 0\<rparr>)) =
      slots_loop (weekday_hours 0) 0 (Time 9 0 0 0) []"
    by (simp add: get_slots_def weekday_hours_def)
  moreover have
    "get_slots (weekday_hours 0) (Inr (default_settings\<lparr>slot_duration := - 600\<rparr>)) =
       Some (Inl ValueError)"
    by (simp add: get_slots_def weekday_hours_def slots_loop.simps truthy_def mk_time_def
        timedelta_minutes_def Let_def)
  ultimately show ?thesis
    by (simp add: stride_zero_never_returns)
qed

text \<open>
  Claim C10. For an entry that is not closed and a stride of at least one minute, every time
  in the sequence \<open>get_slots\<close> returns satisfies \<open>is_open_at\<close>: it lies in
  \<open>open_time \<le> t < close_time\<close> and outside a set break, whatever the break fields hold.
  The call always ends, and with a stride up to 1439999999999 it ends with a sequence.
\<close>

theorem slots_are_open_instants:
  "\<not> is_closed e \<and> 1 \<le> stride_of sr \<longrightarrow>
     (\<exists>r. get_slots e sr = Some r \<and>
        (\<forall>xs. r = Inr xs \<longrightarrow>
           (\<forall>t\<in>set xs. is_open_at e t \<and> open_time e \<le> t \<and> t < close_time e \<and>
                        \<not> in_break e t)) \<and>
        (stride_of sr \<le> 1439999999999 \<longrightarrow> (\<exists>xs. r = Inr xs)))"
proof
  assume a: "\<not> is_closed e \<and> 1 \<le> stride_of sr"
  then obtain r where r: "slots_loop e (stride_of sr) (open_time e) [] = Some r"
    and listed: "timedelta_range (stride_of sr) \<longrightarrow> (\<exists>xs. r = Inr xs)"
    using slots_loop_ends [of "stride_of sr" e "open_time e" "[]"] by blast
  have "\<forall>t\<in>set xs. is_open_at e t \<and> open_time e \<le> t \<and> t < close_time e \<and> \<not> in_break e t"
    if "r = Inr xs" for xs
  proof -
    from r that have "slot_sequence e (stride_of sr) (open_time e) xs"
      using slots_loop_sound [of e "stride_of sr" "open_time e" "[]" r] by simp
    with a have "\<forall>t\<in>set xs. open_time e \<le> t \<and> t < close_time e \<and> \<not> in_break e t"
      using slot_sequence_open by blast
    with a show ?thesis
      by (auto simp: is_open_at_def in_break_iff)
  qed
  moreover have "stride_of sr \<le> 1439999999999 \<longrightarrow> (\<exists>xs. r = Inr xs)"
    using a listed by (simp add: stride_in_range)
  ultimately show "\<exists>r. get_slots e sr = Some r \<and>
        (\<forall>xs. r = Inr xs \<longrightarrow>
           (\<forall>t\<in>set xs. is_open_at e t \<and> open_time e \<le> t \<and> t < close_time e \<and>
                        \<not> in_break e t)) \<and>
        (stride_of sr \<le> 1439999999999 \<longrightarrow> (\<exists>xs. r = Inr xs))"
    using a r by (simp add: get_slots_loop)
qed

theorem slots_are_open_instants_witness:
  "\<not> is_closed monday_hours \<and> 1 \<le> stride_of (Inr default_settings) \<and>
   stride_of (Inr default_settings) \<le> 1439999999999 \<and>
   (\<exists>xs. get_slots monday_hours (Inr default_settings) = Some (Inr xs) \<and>
      (\<forall>t\<in>set xs. is_open_at monday_hours t))"
proof -
  have opened: "\<not> is_closed monday_hours"
    by (simp add: monday_hours_def)
  have stride: "1 \<le> stride_of (Inr default_settings) \<and>
      stride_of (Inr default_settings) \<le> 1439999999999"
    by (simp add: stride_of_def default_settings_def)
  from slots_are_open_instants [of monday_hours "Inr default_settings"] opened stride
  show ?thesis by blast
qed

end
